theory Spec2Isabelle
  imports Complex_Main "HOL-Library.Log_Nat"
begin

section \<open>Python floats and rounding\<close>

text \<open>
  \<^verbatim>\<open>tile_in_pages\<close> computes its paddings with Python floats (IEEE binary64) and the
  builtin \<^verbatim>\<open>round\<close>. A float is modelled by the rational number it denotes; every
  literal and every arithmetic operation rounds its exact result to the nearest number
  with a 53-bit significand, ties to even. The exponent range is not modelled: the values
  that occur are pixel counts scaled by constants between 0.001 and 1.
\<close>

definition round_half_even :: "rat \<Rightarrow> int" where
  "round_half_even q =
     (let f = \<lfloor>q\<rfloor>; d = q - of_int f
      in if d < 1 / 2 then f else if 1 / 2 < d then f + 1
         else if even f then f else f + 1)"

definition binade :: "rat \<Rightarrow> int" where
  \<comment> \<open>the exponent \<open>e\<close> with \<open>2 powi e \<le> a < 2 powi (e + 1)\<close>, for \<open>a > 0\<close>\<close>
  "binade a =
     (let (n, d) = quotient_of a; k = bitlen n - bitlen d
      in if 2 powi k \<le> a then k else k - 1)"

definition fl :: "rat \<Rightarrow> rat" where
  \<comment> \<open>round to the nearest binary64 value\<close>
  "fl q =
     (if q = 0 then 0
      else let a = \<bar>q\<bar>; u = 2 powi (binade a - 52)
           in sgn q * of_int (round_half_even (a / u)) * u)"

definition fmul :: "rat \<Rightarrow> rat \<Rightarrow> rat" where
  "fmul x y = fl (x * y)"

definition fdiv :: "rat \<Rightarrow> rat \<Rightarrow> rat" where
  \<comment> \<open>the divisors of this program are non-zero constants\<close>
  "fdiv x y = fl (x / y)"

definition fsub :: "rat \<Rightarrow> rat \<Rightarrow> rat" where
  "fsub x y = fl (x - y)"

definition float_of_nat :: "nat \<Rightarrow> rat" where
  \<comment> \<open>the conversion of an int operand of a mixed int/float operation\<close>
  "float_of_nat n = fl (of_nat n)"

definition py_round :: "rat \<Rightarrow> int" where
  \<comment> \<open>\<^verbatim>\<open>round(x)\<close> of a float: the nearest int, ties to even\<close>
  "py_round x = round_half_even x"

section \<open>Images and numpy operations\<close>

datatype error =
    IndexError
  | KeyError string
  | ValueError
  | EinopsError
  | ScryfallError string
  | RequestError string

text \<open>
  An image is an array of shape \<open>(h, w, c)\<close>: \<open>h\<close> rows of \<open>w\<close> pixels of \<open>c\<close>
  channel values. Stacking with \<^verbatim>\<open>np.full(..., 255)\<close> widens the bytes to integers
  without changing them.
\<close>

type_synonym image = "int list list list"

definition shape3 :: "image \<Rightarrow> nat \<times> nat \<times> nat" where
  "shape3 img =
     (length img,
      (case img of [] \<Rightarrow> 0 | row # _ \<Rightarrow> length row),
      (case img of [] \<Rightarrow> 0 | row # _ \<Rightarrow> (case row of [] \<Rightarrow> 0 | px # _ \<Rightarrow> length px)))"

definition has_shape :: "nat \<times> nat \<times> nat \<Rightarrow> image \<Rightarrow> bool" where
  "has_shape s img =
     (case s of (h, w, c) \<Rightarrow>
        length img = h \<and> list_all (\<lambda>row. length row = w \<and> list_all (\<lambda>px. length px = c) row) img)"

definition np_full :: "nat \<times> nat \<times> nat \<Rightarrow> int \<Rightarrow> image" where
  "np_full s v = (case s of (h, w, c) \<Rightarrow> replicate h (replicate w (replicate c v)))"

fun np_pad :: "nat \<times> nat \<Rightarrow> nat \<times> nat \<Rightarrow> nat \<times> nat \<Rightarrow> int \<Rightarrow> image \<Rightarrow> image" where
  \<comment> \<open>\<^verbatim>\<open>np.pad\<close> of one array of width \<open>w\<close> and \<open>c\<close> channels on its two first axes, by
      (before, after) pairs; the other axes of the program's \<^verbatim>\<open>padding\<close> stay 0\<close>
  "np_pad (w, c) (h_before, h_after) (w_before, w_after) v img =
     replicate h_before (replicate (w_before + w + w_after) (replicate c v))
     @ map (\<lambda>row. replicate w_before (replicate c v) @ row @ replicate w_after (replicate c v)) img
     @ replicate h_after (replicate (w_before + w + w_after) (replicate c v))"

definition grid_page :: "nat \<Rightarrow> nat \<Rightarrow> nat \<Rightarrow> image list \<Rightarrow> nat \<Rightarrow> image" where
  \<comment> \<open>page \<open>p\<close> of the pattern below: its pixel row \<open>r * h + y\<close> is row \<open>y\<close> of the
      cells \<open>p * (rows * cols) + r * cols + c\<close>, for \<open>c\<close> from left to right\<close>
  "grid_page rows cols h canvas p =
     concat (map (\<lambda>r.
               map (\<lambda>y. concat (map (\<lambda>c. canvas ! (p * (rows * cols) + r * cols + c) ! y) [0..<cols]))
                   [0..<h])
             [0..<rows])"

definition rearrange :: "nat \<Rightarrow> nat \<Rightarrow> nat \<Rightarrow> image list \<Rightarrow> error + image list" where
  \<comment> \<open>\<^verbatim>\<open>'(p rows cols) h w c -> p (rows h) (cols w) c'\<close>; \<open>h\<close> is the height of a cell.
      einops refuses a first axis that \<open>rows * cols\<close> does not divide.\<close>
  "rearrange rows cols h canvas =
     (if rows * cols = 0 \<or> length canvas mod (rows * cols) \<noteq> 0 then Inl EinopsError
      else Inr (map (grid_page rows cols h canvas) [0..<length canvas div (rows * cols)]))"

section \<open>The page layout engine\<close>

definition ROWS_PER_PAGE :: nat where "ROWS_PER_PAGE = 3"
definition COLS_PER_PAGE :: nat where "COLS_PER_PAGE = 3"
definition CARDS_PER_PAGE :: nat where "CARDS_PER_PAGE = ROWS_PER_PAGE * COLS_PER_PAGE"
definition H_INCHES :: rat where "H_INCHES = fl (348 / 100)"
definition W_INCHES :: rat where "W_INCHES = fl (249 / 100)"
definition PAD_INCHES :: rat where "PAD_INCHES = fl (5 / 1000)"
definition WHITE :: int where "WHITE = 255"

definition nb_missing :: "nat \<Rightarrow> nat" where
  \<comment> \<open>\<^verbatim>\<open>CARDS_PER_PAGE - (nb_images % CARDS_PER_PAGE)\<close>\<close>
  "nb_missing nb_images = CARDS_PER_PAGE - (nb_images mod CARDS_PER_PAGE)"

definition stack_canvas :: "nat \<times> nat \<times> nat \<Rightarrow> image list \<Rightarrow> image list" where
  \<comment> \<open>line 110: the images followed by \<^verbatim>\<open>nb_missing\<close> white images of the same shape\<close>
  "stack_canvas img_shape image_list =
     image_list @ replicate (nb_missing (length image_list)) (np_full img_shape WHITE)"

definition cell_padding :: "rat \<Rightarrow> nat \<Rightarrow> int" where
  \<comment> \<open>\<^verbatim>\<open>round(PAD_INCHES / H_INCHES * canvas.shape[1])\<close>, and the same with the width\<close>
  "cell_padding inches px = py_round (fmul (fdiv PAD_INCHES inches) (float_of_nat px))"

definition pad_cells :: "nat \<times> nat \<times> nat \<Rightarrow> image list \<Rightarrow> image list" where
  \<comment> \<open>lines 112 to 116: \<^verbatim>\<open>padding\<close> has two columns (before, after) and only column 0
      of the rows 1 and 2 is set\<close>
  "pad_cells img_shape canvas =
     (case img_shape of (h, w, c) \<Rightarrow>
        map (np_pad (w, c) (nat (cell_padding H_INCHES h), 0) (nat (cell_padding W_INCHES w), 0) WHITE)
            canvas)"

definition padded_shape :: "nat \<times> nat \<times> nat \<Rightarrow> nat \<times> nat \<times> nat" where
  \<comment> \<open>\<^verbatim>\<open>canvas_shape[1:]\<close>, read after the first \<^verbatim>\<open>np.pad\<close> and before \<^verbatim>\<open>rearrange\<close>\<close>
  "padded_shape img_shape =
     (case img_shape of (h, w, c) \<Rightarrow>
        (nat (cell_padding H_INCHES h) + h, nat (cell_padding W_INCHES w) + w, c))"

definition MISSING_HEIGHT :: "nat \<Rightarrow> rat" where
  "MISSING_HEIGHT px =
     fmul (fdiv (fsub 11 (fmul H_INCHES (float_of_nat ROWS_PER_PAGE))) H_INCHES) (float_of_nat px)"

definition MISSING_WIDTH :: "nat \<Rightarrow> rat" where
  "MISSING_WIDTH px =
     fmul (fdiv (fsub (17 / 2) (fmul W_INCHES (float_of_nat COLS_PER_PAGE))) W_INCHES) (float_of_nat px)"

definition margin_h :: "nat \<Rightarrow> nat" where
  \<comment> \<open>\<^verbatim>\<open>round(MISSING_HEIGHT / 2)\<close>, of \<^verbatim>\<open>canvas_shape[1]\<close>\<close>
  "margin_h px = nat (py_round (fdiv (MISSING_HEIGHT px) 2))"

definition margin_w :: "nat \<Rightarrow> nat" where
  "margin_w px = nat (py_round (fdiv (MISSING_WIDTH px) 2))"

definition pad_pages :: "nat \<times> nat \<times> nat \<Rightarrow> image list \<Rightarrow> image list" where
  \<comment> \<open>lines 124 to 131: this \<^verbatim>\<open>padding\<close> has one column, which \<^verbatim>\<open>np.pad\<close> applies
      before and after\<close>
  "pad_pages canvas_shape pages =
     (case canvas_shape of (cell_h, cell_w, c) \<Rightarrow>
        map (np_pad (COLS_PER_PAGE * cell_w, c)
               (margin_h cell_h, margin_h cell_h) (margin_w cell_w, margin_w cell_w) WHITE)
            pages)"

definition tile_in_pages :: "image list \<Rightarrow> error + image list" where
  "tile_in_pages image_list =
     (case image_list of
        [] \<Rightarrow> Inl IndexError
      | first # _ \<Rightarrow>
          (let img_shape = shape3 first
           in if \<not> list_all (has_shape img_shape) image_list then Inl ValueError
              else
                (let canvas = stack_canvas img_shape image_list;
                     canvas = pad_cells img_shape canvas;
                     canvas_shape = padded_shape img_shape
                 in case rearrange ROWS_PER_PAGE COLS_PER_PAGE (fst canvas_shape) canvas of
                      Inl e \<Rightarrow> Inl e
                    | Inr pages \<Rightarrow> Inr (pad_pages canvas_shape pages))))"

text \<open>
  Splitting a page back into its cells by the grid geometry: the cell at grid position
  \<open>(r, c)\<close> starts \<open>margin + r * cell_h\<close> rows down and \<open>margin + c * cell_w\<close>
  pixels in. This is the inverse the round-trip property of the specification speaks
  of; the program has no such function.
\<close>

definition untile_cell :: "nat \<times> nat \<Rightarrow> nat \<times> nat \<Rightarrow> image \<Rightarrow> nat \<Rightarrow> nat \<Rightarrow> image" where
  "untile_cell cell margin page r c =
     (case cell of (cell_h, cell_w) \<Rightarrow> case margin of (mh, mw) \<Rightarrow>
        map (\<lambda>y. take cell_w (drop (mw + c * cell_w) (page ! (mh + r * cell_h + y)))) [0..<cell_h])"

definition untile_page :: "nat \<times> nat \<Rightarrow> nat \<times> nat \<Rightarrow> image \<Rightarrow> image list" where
  "untile_page cell margin page =
     concat (map (\<lambda>r. map (\<lambda>c. untile_cell cell margin page r c) [0..<COLS_PER_PAGE])
                 [0..<ROWS_PER_PAGE])"

definition untile :: "nat \<times> nat \<times> nat \<Rightarrow> image list \<Rightarrow> image list" where
  \<comment> \<open>all cells of all pages, for input images of shape \<open>img_shape\<close>\<close>
  "untile img_shape pages =
     (case padded_shape img_shape of (cell_h, cell_w, c) \<Rightarrow>
        concat (map (untile_page (cell_h, cell_w) (margin_h cell_h, margin_w cell_w)) pages))"

definition unpad_cell :: "nat \<times> nat \<times> nat \<Rightarrow> image \<Rightarrow> image" where
  \<comment> \<open>a cell without the rows and columns the first \<^verbatim>\<open>np.pad\<close> put before it\<close>
  "unpad_cell img_shape cell =
     (case img_shape of (h, w, c) \<Rightarrow>
        map (drop (nat (cell_padding W_INCHES w))) (drop (nat (cell_padding H_INCHES h)) cell))"

definition cells_ok :: "nat \<Rightarrow> nat \<Rightarrow> image list \<Rightarrow> bool" where
  \<comment> \<open>every cell has \<open>ch\<close> rows of \<open>cw\<close> pixels\<close>
  "cells_ok ch cw canvas =
     list_all (\<lambda>cell. length cell = ch \<and> list_all (\<lambda>row. length row = cw) cell) canvas"

section \<open>Strings\<close>

text \<open>
  A string is a list of 8-bit code points; \<^verbatim>\<open>str.strip\<close>, \<^verbatim>\<open>str.isdigit\<close>,
  \<^verbatim>\<open>str.startswith\<close>, \<^verbatim>\<open>str.split\<close> and \<^verbatim>\<open>in\<close> are modelled on them.
\<close>

definition isspace :: "char \<Rightarrow> bool" where
  \<comment> \<open>the code points below 256 that \<^verbatim>\<open>str.isspace\<close> accepts\<close>
  "isspace ch =
     (let n = (of_char ch :: nat)
      in (9 \<le> n \<and> n \<le> 13) \<or> (28 \<le> n \<and> n \<le> 32) \<or> n = 133 \<or> n = 160)"

definition strip :: "string \<Rightarrow> string" where
  "strip s = rev (dropWhile isspace (rev (dropWhile isspace s)))"

definition strip_chars :: "char \<Rightarrow> string \<Rightarrow> string" where
  \<comment> \<open>\<^verbatim>\<open>s.strip('/')\<close>\<close>
  "strip_chars ch s = rev (dropWhile (\<lambda>x. x = ch) (rev (dropWhile (\<lambda>x. x = ch) s)))"

definition startswith :: "string \<Rightarrow> string \<Rightarrow> bool" where
  "startswith s pre = (take (length pre) s = pre)"

definition isdigit :: "string \<Rightarrow> bool" where
  \<comment> \<open>non-empty and every character a digit; below 256 the digits are 0 to 9 and the
      superscripts 1, 2 and 3\<close>
  "isdigit s =
     (s \<noteq> [] \<and> list_all (\<lambda>ch. let n = (of_char ch :: nat)
                                 in (48 \<le> n \<and> n \<le> 57) \<or> n = 178 \<or> n = 179 \<or> n = 185) s)"

fun split :: "char \<Rightarrow> string \<Rightarrow> string list" where
  \<comment> \<open>\<^verbatim>\<open>s.split(sep)\<close> with a one-character separator\<close>
  "split sep [] = [[]]"
| "split sep (x # xs) =
     (if x = sep then [] # split sep xs
      else (case split sep xs of [] \<Rightarrow> [[x]] | y # ys \<Rightarrow> (x # y) # ys))"

definition split_once :: "char \<Rightarrow> string \<Rightarrow> string \<times> string" where
  \<comment> \<open>\<^verbatim>\<open>a, b = s.split(sep, 1)\<close> of a string that contains the separator\<close>
  "split_once sep s = (takeWhile (\<lambda>x. x \<noteq> sep) s, drop 1 (dropWhile (\<lambda>x. x \<noteq> sep) s))"

section \<open>Catalog records, the outside world and the state of a run\<close>

text \<open>
  A catalog record is the JSON object of a card; the keys the program reads may be
  absent, and reading an absent key raises KeyError. \<^verbatim>\<open>to_json\<close> only unwraps the
  object and is the identity here.
\<close>

record part =
  component :: "string option"
  part_id :: "string option"

record card_data =
  card_id :: "string option"
  type_line :: "string option"
  image_uri_normal :: "string option"
  all_parts :: "part list option"

datatype call =
    CallId string
  | CallNamed string
  | CallSearch string
  | CallGet string
  | CallSample nat int
  | CallSleep
  | CallPrint string

text \<open>
  The catalog service, the artwork download and the random generator are outside the
  program. Each answer may depend on all the calls made so far, so a service that changes
  over time is covered. \<open>'img\<close> is what \<^verbatim>\<open>cv2.imdecode\<close> returns. \<open>sample_indices\<close>
  gives the positions \<^verbatim>\<open>random.sample\<close> picks in a population of \<open>n\<close> for a sample of
  \<open>k \<le> n\<close>; \<open>set_iter\<close> is the order in which a set is iterated.
\<close>

record 'img world =
  cards_Id :: "call list \<Rightarrow> string \<Rightarrow> error + card_data"
  cards_Named :: "call list \<Rightarrow> string \<Rightarrow> error + card_data"
  cards_Search :: "call list \<Rightarrow> string \<Rightarrow> error + card_data list"
  requests_get :: "call list \<Rightarrow> string \<Rightarrow> error + 'img"
  sample_indices :: "call list \<Rightarrow> nat \<Rightarrow> nat \<Rightarrow> nat list"
  urlparse_path :: "string \<Rightarrow> error + string"
  set_iter :: "string set \<Rightarrow> string list"

text \<open>
  The state of a run: \<open>images\<close> is the list \<^verbatim>\<open>image_list\<close> and \<open>tokens\<close> the set
  \<^verbatim>\<open>token_ids\<close>, both created by the driver and passed by reference to every call;
  \<open>calls\<close> records the calls made to the outside, in order.
\<close>

record 'img state =
  images :: "'img list"
  tokens :: "string set"
  calls :: "call list"

type_synonym ('a, 'img) io = "'img state \<Rightarrow> (error + 'a) \<times> 'img state"

definition io_return :: "'a \<Rightarrow> ('a, 'img) io" where
  "io_return x = (\<lambda>s. (Inr x, s))"

definition io_lift :: "error + 'a \<Rightarrow> ('a, 'img) io" where
  \<comment> \<open>a computation without effect that may raise\<close>
  "io_lift r = (\<lambda>s. (r, s))"

definition io_bind :: "('a, 'img) io \<Rightarrow> ('a \<Rightarrow> ('b, 'img) io) \<Rightarrow> ('b, 'img) io" where
  \<comment> \<open>sequencing: an exception skips what follows and keeps the state reached\<close>
  "io_bind m f = (\<lambda>s. case m s of (Inl e, s') \<Rightarrow> (Inl e, s') | (Inr x, s') \<Rightarrow> f x s')"

definition io_catch :: "('a, 'img) io \<Rightarrow> (error \<Rightarrow> ('a, 'img) io) \<Rightarrow> ('a, 'img) io" where
  \<comment> \<open>\<^verbatim>\<open>try: ... except Exception: ...\<close>\<close>
  "io_catch m h = (\<lambda>s. case m s of (Inl e, s') \<Rightarrow> h e s' | (Inr x, s') \<Rightarrow> (Inr x, s'))"

definition log_call :: "call \<Rightarrow> 'img state \<Rightarrow> 'img state" where
  "log_call c s = s\<lparr>calls := calls s @ [c]\<rparr>"

definition scrython_cards_Id :: "'img world \<Rightarrow> string \<Rightarrow> (card_data, 'img) io" where
  "scrython_cards_Id w ident = (\<lambda>s. (cards_Id w (calls s) ident, log_call (CallId ident) s))"

definition scrython_cards_Named :: "'img world \<Rightarrow> string \<Rightarrow> (card_data, 'img) io" where
  "scrython_cards_Named w fuzzy = (\<lambda>s. (cards_Named w (calls s) fuzzy, log_call (CallNamed fuzzy) s))"

definition scrython_cards_Search :: "'img world \<Rightarrow> string \<Rightarrow> (card_data list, 'img) io" where
  "scrython_cards_Search w q = (\<lambda>s. (cards_Search w (calls s) q, log_call (CallSearch q) s))"

definition requests_get_image :: "'img world \<Rightarrow> string \<Rightarrow> ('img, 'img) io" where
  \<comment> \<open>\<^verbatim>\<open>requests.get(url).raw\<close>, read and decoded\<close>
  "requests_get_image w url = (\<lambda>s. (requests_get w (calls s) url, log_call (CallGet url) s))"

definition random_sample :: "'img world \<Rightarrow> 'a list \<Rightarrow> int \<Rightarrow> ('a list, 'img) io" where
  \<comment> \<open>\<^verbatim>\<open>random.sample(population, k)\<close>: ValueError unless \<open>0 \<le> k \<le> len(population)\<close>\<close>
  "random_sample w population k =
     (\<lambda>s. (if k < 0 \<or> int (length population) < k then Inl ValueError
            else Inr (map (\<lambda>i. population ! i)
                          (sample_indices w (calls s) (length population) (nat k))),
           log_call (CallSample (length population) k) s))"

definition time_sleep :: "(unit, 'img) io" where
  "time_sleep = (\<lambda>s. (Inr (), log_call CallSleep s))"

definition print :: "string \<Rightarrow> (unit, 'img) io" where
  "print msg = (\<lambda>s. (Inr (), log_call (CallPrint msg) s))"

definition get_key :: "string \<Rightarrow> 'a option \<Rightarrow> ('a, 'img) io" where
  \<comment> \<open>\<^verbatim>\<open>d[key]\<close>\<close>
  "get_key key v = io_lift (case v of None \<Rightarrow> Inl (KeyError key) | Some x \<Rightarrow> Inr x)"

definition extend_images :: "'img list \<Rightarrow> (unit, 'img) io" where
  \<comment> \<open>\<^verbatim>\<open>image_list.extend(xs)\<close>\<close>
  "extend_images xs = (\<lambda>s. (Inr (), s\<lparr>images := images s @ xs\<rparr>))"

definition update_tokens :: "string set \<Rightarrow> (unit, 'img) io" where
  \<comment> \<open>\<^verbatim>\<open>token_ids |= xs\<close>, on the caller's set\<close>
  "update_tokens xs = (\<lambda>s. (Inr (), s\<lparr>tokens := tokens s \<union> xs\<rparr>))"

section \<open>The identifier resolver and the card resolver\<close>

definition search_first_id :: "'img world \<Rightarrow> string \<Rightarrow> string \<Rightarrow> (string option, 'img) io" where
  \<comment> \<open>lines 153 to 155 and 158 to 160; without results the function runs to its end and
      returns None\<close>
  "search_first_id w set_code number =
     io_bind (scrython_cards_Search w (''set:'' @ set_code @ '' number:'' @ number))
       (\<lambda>results. case results of
            [] \<Rightarrow> io_return None
          | first # _ \<Rightarrow> io_bind (get_key ''id'' (card_id first)) (\<lambda>i. io_return (Some i)))"

definition resolve_token_spec :: "'img world \<Rightarrow> string \<Rightarrow> (string option, 'img) io" where
  "resolve_token_spec w spec0 =
     (let spec = strip spec0
      in io_catch
           (if startswith spec ''http'' then
              io_bind (io_lift (urlparse_path w spec))
                (\<lambda>path. let parts = split (CHR ''/'') (strip_chars (CHR ''/'') path)
                         in if 3 \<le> length parts \<and> parts ! 0 = ''card''
                            then search_first_id w (parts ! 1) (parts ! 2)
                            else io_return None)
            else if CHR ''/'' \<in> set spec then
              (case split_once (CHR ''/'') spec of
                 (set_code, number) \<Rightarrow> search_first_id w set_code number)
            else
              io_bind (scrython_cards_Named w spec)
                (\<lambda>card_data. io_bind (get_key ''id'' (card_id card_data)) (\<lambda>i. io_return (Some i))))
           (\<lambda>e. io_return None))"

definition truthy :: "string option \<Rightarrow> bool" where
  \<comment> \<open>\<^verbatim>\<open>if tid:\<close> of None or a string\<close>
  "truthy tid = (case tid of None \<Rightarrow> False | Some t \<Rightarrow> t \<noteq> [])"

definition fetch_image :: "'img world \<Rightarrow> card_data \<Rightarrow> ('img, 'img) io" where
  "fetch_image w card_data =
     io_bind (get_key ''image_uris'' (image_uri_normal card_data)) (\<lambda>image_url. requests_get_image w image_url)"

fun get_tokens_from :: "part list \<Rightarrow> string set \<Rightarrow> error + string set" where
  \<comment> \<open>the loop of \<^verbatim>\<open>get_tokens\<close>\<close>
  "get_tokens_from [] token_ids = Inr token_ids"
| "get_tokens_from (p # ps) token_ids =
     (case component p of
        None \<Rightarrow> Inl (KeyError ''component'')
      | Some kind \<Rightarrow>
          if kind = ''token'' then
            (case part_id p of
               None \<Rightarrow> Inl (KeyError ''id'')
             | Some i \<Rightarrow> get_tokens_from ps (insert i token_ids))
          else get_tokens_from ps token_ids)"

definition get_tokens :: "card_data \<Rightarrow> error + string set" where
  "get_tokens card_data =
     get_tokens_from (case all_parts card_data of None \<Rightarrow> [] | Some ps \<Rightarrow> ps) {}"

record infos =
  name :: string
  count :: int

definition lookup_card :: "'img world \<Rightarrow> string \<Rightarrow> (card_data, 'img) io" where
  \<comment> \<open>lines 51 to 62: the handler only re-raises what it caught\<close>
  "lookup_card w nm =
     io_catch
       (io_bind
          (if startswith nm ''http'' \<or> (CHR ''/'' \<in> set nm \<and> \<not> isdigit nm) then
             io_bind (resolve_token_spec w nm)
               (\<lambda>tid. case tid of
                    Some t \<Rightarrow> if truthy tid
                              then io_bind (scrython_cards_Id w t) (\<lambda>c. io_return (Some c))
                              else io_return None
                  | None \<Rightarrow> io_return None)
           else io_return None)
          (\<lambda>found. case found of
               None \<Rightarrow> scrython_cards_Named w nm
             | Some c \<Rightarrow> io_return c))
       (\<lambda>e. io_lift (Inl e))"

fun extend_fetched :: "'img world \<Rightarrow> card_data list \<Rightarrow> (unit, 'img) io" where
  \<comment> \<open>\<^verbatim>\<open>image_list.extend(map(fetch_image, cards))\<close>: the images are appended as they
      are fetched\<close>
  "extend_fetched w [] = io_return ()"
| "extend_fetched w (c # cs) =
     io_bind (fetch_image w c)
       (\<lambda>image. io_bind (extend_images [image]) (\<lambda>_. extend_fetched w cs))"

definition process_card :: "'img world \<Rightarrow> infos \<Rightarrow> bool \<Rightarrow> (unit, 'img) io" where
  "process_card w infos add_tokens =
     io_bind (lookup_card w (strip (name infos)))
       (\<lambda>card_data.
          io_bind (get_key ''type_line'' (type_line card_data))
            (\<lambda>tl.
               io_bind
                 (if startswith tl ''Basic Land'' then
                    io_bind (scrython_cards_Search w (''++'' @ name infos))
                      (\<lambda>candidates.
                         io_bind (random_sample w candidates (count infos))
                           (\<lambda>sampled. extend_fetched w sampled))
                  else
                    io_bind (fetch_image w card_data)
                      (\<lambda>image.
                         io_bind (extend_images (replicate (nat (count infos)) image))
                           (\<lambda>_. if add_tokens
                                then io_bind (io_lift (get_tokens card_data)) update_tokens
                                else io_return ())))
                 (\<lambda>_. time_sleep)))"

definition process_token :: "'img world \<Rightarrow> string \<Rightarrow> (unit, 'img) io" where
  "process_token w ident =
     io_bind (scrython_cards_Id w ident)
       (\<lambda>token_data. io_bind (fetch_image w token_data) (\<lambda>image. extend_images [image, image]))"

section \<open>The top-level flow\<close>

fun resolve_forced :: "'img world \<Rightarrow> string list \<Rightarrow> string set \<Rightarrow> (string set, 'img) io" where
  \<comment> \<open>lines 213 to 219\<close>
  "resolve_forced w [] forced = io_return forced"
| "resolve_forced w (spec # specs) forced =
     io_bind (resolve_token_spec w spec)
       (\<lambda>tid. case tid of
            Some t \<Rightarrow>
              if truthy tid then resolve_forced w specs (insert t forced)
              else io_bind (print (''Warning: could not resolve token spec: '' @ spec))
                     (\<lambda>_. resolve_forced w specs forced)
          | None \<Rightarrow>
              io_bind (print (''Warning: could not resolve token spec: '' @ spec))
                (\<lambda>_. resolve_forced w specs forced))"

fun process_cards :: "'img world \<Rightarrow> infos list \<Rightarrow> bool \<Rightarrow> (unit, 'img) io" where
  \<comment> \<open>lines 225 and 226\<close>
  "process_cards w [] add_tokens = io_return ()"
| "process_cards w (card_infos # deck) add_tokens =
     io_bind (process_card w card_infos add_tokens) (\<lambda>_. process_cards w deck add_tokens)"

fun process_tokens :: "'img world \<Rightarrow> string list \<Rightarrow> (unit, 'img) io" where
  \<comment> \<open>lines 230 and 231, over the identifiers in the order of iteration\<close>
  "process_tokens w [] = io_return ()"
| "process_tokens w (ident # idents) =
     io_bind (process_token w ident) (\<lambda>_. process_tokens w idents)"

definition fetch_tokens :: "'img world \<Rightarrow> bool \<Rightarrow> string set \<Rightarrow> (unit, 'img) io" where
  \<comment> \<open>lines 229 to 231\<close>
  "fetch_tokens w add_tokens forced_token_ids =
     (\<lambda>s. if (add_tokens \<and> tokens s \<noteq> {}) \<or> forced_token_ids \<noteq> {}
           then process_tokens w (set_iter w (tokens s)) s
           else (Inr (), s))"

definition fetch_deck :: "'img world \<Rightarrow> bool \<Rightarrow> string list \<Rightarrow> infos list \<Rightarrow> (unit, 'img) io" where
  \<comment> \<open>lines 209 to 231: \<open>no_tokens\<close> and \<open>token\<close> are the command-line arguments\<close>
  "fetch_deck w no_tokens token deck =
     (let add_tokens = \<not> no_tokens
      in io_bind (resolve_forced w token {})
           (\<lambda>forced_token_ids.
              io_bind (if forced_token_ids \<noteq> {} \<and> no_tokens
                       then print ''Note: user-specified tokens will be included despite --no-tokens.''
                       else io_return ())
                (\<lambda>_. io_bind (update_tokens forced_token_ids)
                   (\<lambda>_. io_bind (process_cards w deck add_tokens)
                      (\<lambda>_. fetch_tokens w add_tokens forced_token_ids)))))"

definition initial_state :: "'img state" where
  \<comment> \<open>line 209\<close>
  "initial_state = \<lparr>images = [], tokens = {}, calls = []\<rparr>"

section \<open>Worlds for concrete runs\<close>

definition unknown_card_world :: "unit world" where
  \<comment> \<open>a catalog that knows no card\<close>
  "unknown_card_world =
     \<lparr>cards_Id = (\<lambda>_ _. Inl (ScryfallError ''No card found with the given ID.'')),
      cards_Named = (\<lambda>_ _. Inl (ScryfallError ''No cards found matching the name.'')),
      cards_Search = (\<lambda>_ _. Inl (ScryfallError ''Your query did not match any cards.'')),
      requests_get = (\<lambda>_ _. Inl (RequestError ''unreachable'')),
      sample_indices = (\<lambda>_ _ k. [0..<k]),
      urlparse_path = (\<lambda>url. Inr url),
      set_iter = (\<lambda>_. [])\<rparr>"







definition quiet :: "('a, 'img) io \<Rightarrow> bool" where
  \<comment> \<open>a computation that leaves the images and the token set as they are\<close>
  "quiet m = (\<forall>s r s'. m s = (r, s') \<longrightarrow> images s' = images s \<and> tokens s' = tokens s)"

section \<open>Lists cut into blocks of equal length\<close>

lemma CARDS_PER_PAGE_9: "CARDS_PER_PAGE = 9"
  by (simp add: CARDS_PER_PAGE_def ROWS_PER_PAGE_def COLS_PER_PAGE_def)

declare np_pad.simps [simp del]

lemma length_concat_blocks:
  "\<forall>xs\<in>set xss. length xs = m \<Longrightarrow> length (concat xss) = length xss * m"
  by (induction xss) auto

lemma take_drop_concat_blocks:
  "\<forall>xs\<in>set xss. length xs = m \<Longrightarrow> i < length xss \<Longrightarrow>
     take m (drop (i * m) (concat xss)) = xss ! i"
proof (induction xss arbitrary: i)
  case Nil
  then show ?case by simp
next
  case (Cons xs xss)
  show ?case
  proof (cases i)
    case 0
    with Cons.prems show ?thesis by simp
  next
    case (Suc j)
    with Cons.prems have "j < length xss" and "length xs = m" by auto
    with Cons.IH [of j] Cons.prems Suc show ?thesis by simp
  qed
qed

lemma nth_concat_blocks:
  assumes "\<forall>xs\<in>set xss. length xs = m" and "i < length xss" and "y < m"
  shows "concat xss ! (i * m + y) = xss ! i ! y"
proof -
  have len: "length (concat xss) = length xss * m"
    using assms(1) by (rule length_concat_blocks)
  have "i * m + m \<le> length xss * m"
    using assms(2) by (metis Suc_leI mult_Suc mult_le_mono1 add.commute)
  then have "i * m + y < length (concat xss)"
    using assms(3) len by linarith
  then have "concat xss ! (i * m + y) = take m (drop (i * m) (concat xss)) ! y"
    using assms(3) by simp
  then show ?thesis
    using take_drop_concat_blocks [OF assms(1) assms(2)] by simp
qed

lemma concat_chunks:
  "length xs = k * n \<Longrightarrow> concat (map (\<lambda>p. take n (drop (p * n) xs)) [0..<k]) = xs"
proof (induction k arbitrary: xs)
  case 0
  then show ?case by simp
next
  case (Suc k)
  let ?ys = "take (k * n) xs"
  have len: "length ?ys = k * n" using Suc.prems by simp
  have "concat (map (\<lambda>p. take n (drop (p * n) ?ys)) [0..<k]) = ?ys"
    by (rule Suc.IH [OF len])
  moreover have "map (\<lambda>p. take n (drop (p * n) ?ys)) [0..<k]
               = map (\<lambda>p. take n (drop (p * n) xs)) [0..<k]"
  proof (rule map_cong [OF refl])
    fix p assume "p \<in> set [0..<k]"
    then have "p * n + n \<le> k * n"
      by (metis Suc_leI atLeastLessThan_iff mult_Suc mult_le_mono1 add.commute set_upt)
    then show "take n (drop (p * n) ?ys) = take n (drop (p * n) xs)"
      by (simp add: drop_take)
  qed
  moreover have "take n (drop (k * n) xs) = drop (k * n) xs"
    using Suc.prems by simp
  ultimately show ?case by simp
qed

section \<open>Cutting a page into its cells\<close>

lemma grid_page_row:
  assumes "r < 3" and "y < ch"
  shows "grid_page 3 3 ch canvas p ! (r * ch + y)
       = concat (map (\<lambda>c. canvas ! (p * (3 * 3) + r * 3 + c) ! y) [0..<3])"
proof -
  let ?blocks = "map (\<lambda>r. map (\<lambda>y. concat (map (\<lambda>c. canvas ! (p * (3 * 3) + r * 3 + c) ! y) [0..<3]))
                           [0..<ch]) [0..<3]"
  have "\<forall>xs\<in>set ?blocks. length xs = ch" by auto
  moreover have "r < length ?blocks" using assms(1) by simp
  ultimately have "concat ?blocks ! (r * ch + y) = ?blocks ! r ! y"
    using assms(2) by (rule nth_concat_blocks)
  then show ?thesis
    using assms by (simp add: grid_page_def)
qed

lemma length_grid_page: "length (grid_page 3 3 ch canvas p) = 3 * ch"
proof -
  have "length (grid_page 3 3 ch canvas p) = length [0..<3] * ch"
    unfolding grid_page_def by (subst length_concat_blocks [where m = ch]) auto
  then show ?thesis by simp
qed

lemma np_pad_row:
  assumes "j < length page"
  shows "np_pad (w, cc) (mh, mh') (mw, mw') v page ! (mh + j)
       = replicate mw (replicate cc v) @ page ! j @ replicate mw' (replicate cc v)"
  using assms by (simp add: np_pad.simps nth_append)

lemma take_drop_padded_row:
  assumes "k + cw \<le> length row"
  shows "take cw (drop (mw + k) (replicate mw px @ row @ zs)) = take cw (drop k row)"
  using assms by simp

lemma untile_cell_grid_page:
  assumes ok: "cells_ok ch cw canvas"
    and inside: "p * 9 + 9 \<le> length canvas"
    and r: "r < 3" and c: "c < 3"
  shows "untile_cell (ch, cw) (mh, mw) (np_pad (3 * cw, cc) (mh, mh) (mw, mw) v (grid_page 3 3 ch canvas p)) r c
       = canvas ! (p * 9 + r * 3 + c)"
proof -
  let ?cell = "canvas ! (p * 9 + r * 3 + c)"
  have idx: "p * 9 + r * 3 + c' < length canvas" if "c' < 3" for c'
    using inside r that by linarith
  have shape: "length (canvas ! i) = ch \<and> (\<forall>row\<in>set (canvas ! i). length row = cw)"
    if "i < length canvas" for i
    using ok that unfolding cells_ok_def list_all_iff by (meson nth_mem)
  have row: "take cw (drop (mw + c * cw)
               (np_pad (3 * cw, cc) (mh, mh) (mw, mw) v (grid_page 3 3 ch canvas p) ! (mh + r * ch + y)))
             = ?cell ! y" if y: "y < ch" for y
  proof -
    let ?g = "\<lambda>c'. canvas ! (p * (3 * 3) + r * 3 + c') ! y"
    let ?row = "concat (map ?g [0..<3])"
    have lens: "\<forall>xs\<in>set (map ?g [0..<3]). length xs = cw"
    proof
      fix xs assume "xs \<in> set (map ?g [0..<3])"
      then obtain c' where c': "c' < 3" and xs: "xs = ?g c'" by auto
      have "p * (3 * 3) + r * 3 + c' < length canvas" using idx [OF c'] by simp
      from shape [OF this] y have "?g c' \<in> set (canvas ! (p * (3 * 3) + r * 3 + c'))"
        by simp
      with shape [OF \<open>p * (3 * 3) + r * 3 + c' < length canvas\<close>] xs show "length xs = cw"
        by blast
    qed
    have len_row: "length ?row = 3 * cw"
      using length_concat_blocks [OF lens] by simp
    have "r * ch + y < length (grid_page 3 3 ch canvas p)"
    proof -
      have "r * ch + ch \<le> 3 * ch"
        using r by (metis Suc_leI mult_Suc mult_le_mono1 add.commute)
      then show ?thesis using y unfolding length_grid_page by linarith
    qed
    then have "np_pad (3 * cw, cc) (mh, mh) (mw, mw) v (grid_page 3 3 ch canvas p) ! (mh + (r * ch + y))
             = replicate mw (replicate cc v) @ grid_page 3 3 ch canvas p ! (r * ch + y)
               @ replicate mw (replicate cc v)"
      by (rule np_pad_row)
    then have padded: "np_pad (3 * cw, cc) (mh, mh) (mw, mw) v (grid_page 3 3 ch canvas p) ! (mh + r * ch + y)
             = replicate mw (replicate cc v) @ ?row @ replicate mw (replicate cc v)"
      using grid_page_row [OF r y] by (simp add: add.assoc)
    have "c * cw + cw \<le> 3 * cw"
      using c by (metis Suc_leI mult_Suc mult_le_mono1 add.commute)
    then have "c * cw + cw \<le> length ?row" unfolding len_row .
    then have "take cw (drop (mw + c * cw) (replicate mw (replicate cc v) @ ?row @ replicate mw (replicate cc v)))
             = take cw (drop (c * cw) ?row)"
      by (rule take_drop_padded_row)
    also have "\<dots> = map ?g [0..<3] ! c"
      using lens c by (intro take_drop_concat_blocks) simp_all
    also have "\<dots> = ?cell ! y" using c by simp
    finally show ?thesis using padded by (simp)
  qed
  have "untile_cell (ch, cw) (mh, mw) (np_pad (3 * cw, cc) (mh, mh) (mw, mw) v (grid_page 3 3 ch canvas p)) r c
      = map (\<lambda>y. ?cell ! y) [0..<ch]"
    unfolding untile_cell_def by (simp add: row)
  also have "\<dots> = ?cell"
    using shape [OF idx [OF c]] by (metis map_nth)
  finally show ?thesis .
qed

lemma take_drop_nths:
  assumes "i + n \<le> length xs"
  shows "take n (drop i xs) = map (\<lambda>j. xs ! (i + j)) [0..<n]"
  using assms by (intro nth_equalityI) simp_all

lemma untile_page_grid_page:
  assumes ok: "cells_ok ch cw canvas" and inside: "p * 9 + 9 \<le> length canvas"
  shows "untile_page (ch, cw) (mh, mw) (np_pad (3 * cw, cc) (mh, mh) (mw, mw) v (grid_page 3 3 ch canvas p))
       = take 9 (drop (p * 9) canvas)"
proof -
  have upt3: "[0..<3] = [0, 1, 2]" by code_simp
  have upt9: "[0..<9] = [0, 1, 2, 3, 4, 5, 6, 7, 8]" by code_simp
  have cell: "untile_cell (ch, cw) (mh, mw)
                (np_pad (3 * cw, cc) (mh, mh) (mw, mw) v (grid_page 3 3 ch canvas p)) r c
            = canvas ! (p * 9 + (r * 3 + c))" if "r < 3" and "c < 3" for r c
    using untile_cell_grid_page [OF ok inside that] by (simp add: add.assoc)
  have "untile_page (ch, cw) (mh, mw) (np_pad (3 * cw, cc) (mh, mh) (mw, mw) v (grid_page 3 3 ch canvas p))
      = map (\<lambda>j. canvas ! (p * 9 + j)) [0..<9]"
    unfolding untile_page_def ROWS_PER_PAGE_def COLS_PER_PAGE_def upt3 upt9
    by (simp add: cell)
  then show ?thesis
    using take_drop_nths [OF inside] by simp
qed

lemma rearrange_pages:
  assumes "length canvas = k * 9"
  shows "rearrange ROWS_PER_PAGE COLS_PER_PAGE h canvas = Inr (map (grid_page 3 3 h canvas) [0..<k])"
  using assms by (simp add: rearrange_def ROWS_PER_PAGE_def COLS_PER_PAGE_def)

lemma untile_pages:
  assumes ok: "cells_ok ch cw canvas" and len: "length canvas = k * 9"
  shows "concat (map (untile_page (ch, cw) (mh, mw))
           (map (np_pad (3 * cw, cc) (mh, mh) (mw, mw) v) (map (grid_page 3 3 ch canvas) [0..<k])))
       = canvas"
proof -
  have step: "untile_page (ch, cw) (mh, mw)
            (np_pad (3 * cw, cc) (mh, mh) (mw, mw) v (grid_page 3 3 ch canvas p))
        = take 9 (drop (p * 9) canvas)" if "p \<in> set [0..<k]" for p
  proof -
    from that have "Suc p \<le> k" by simp
    then have "Suc p * 9 \<le> k * 9" by (rule mult_le_mono1)
    then have "p * 9 + 9 \<le> length canvas" unfolding len by simp
    with ok show ?thesis by (rule untile_page_grid_page)
  qed
  have "map (untile_page (ch, cw) (mh, mw))
           (map (np_pad (3 * cw, cc) (mh, mh) (mw, mw) v) (map (grid_page 3 3 ch canvas) [0..<k]))
      = map (\<lambda>p. untile_page (ch, cw) (mh, mw)
            (np_pad (3 * cw, cc) (mh, mh) (mw, mw) v (grid_page 3 3 ch canvas p))) [0..<k]"
    by (simp add: comp_def)
  also have "\<dots> = map (\<lambda>p. take 9 (drop (p * 9) canvas)) [0..<k]"
    by (rule map_cong [OF refl]) (rule step)
  finally show ?thesis
    using concat_chunks [OF len] by (simp only:)
qed

lemma nb_missing_total: "n + nb_missing n = (n div 9 + 1) * 9"
proof -
  have "n mod 9 < 9" by simp
  then show ?thesis
    unfolding nb_missing_def CARDS_PER_PAGE_9 by presburger
qed

lemma has_shape_np_full: "has_shape s (np_full s v)"
  by (cases s) (simp add: has_shape_def np_full_def list_all_iff)

lemma cells_ok_pad_cells:
  assumes "list_all (has_shape (h, w, c)) canvas"
  shows "cells_ok (nat (cell_padding H_INCHES h) + h) (nat (cell_padding W_INCHES w) + w)
           (pad_cells (h, w, c) canvas)"
  using assms
  by (auto simp: cells_ok_def pad_cells_def has_shape_def list_all_iff np_pad.simps)

lemma tile_in_pages_eq:
  assumes nonempty: "image_list = first # rest"
    and same: "list_all (has_shape (shape3 first)) image_list"
    and shape: "shape3 first = (h, w, c)"
    and cell: "padded_shape (h, w, c) = (ch, cw, cc)"
    and canvas: "canvas = pad_cells (h, w, c) (stack_canvas (h, w, c) image_list)"
  shows "tile_in_pages image_list
       = Inr (map (np_pad (3 * cw, cc) (margin_h ch, margin_h ch) (margin_w cw, margin_w cw) WHITE)
               (map (grid_page 3 3 ch canvas) [0..<length image_list div 9 + 1]))"
proof -
  have len: "length canvas = (length image_list div 9 + 1) * 9"
    unfolding canvas by (simp add: pad_cells_def stack_canvas_def nb_missing_total)
  have "rearrange ROWS_PER_PAGE COLS_PER_PAGE ch canvas
      = Inr (map (grid_page 3 3 ch canvas) [0..<length image_list div 9 + 1])"
    using len by (rule rearrange_pages)
  then show ?thesis
    using same cell
    unfolding tile_in_pages_def nonempty [symmetric] canvas
    by (simp add: nonempty shape pad_pages_def COLS_PER_PAGE_def Let_def)
qed

lemma tile_in_pages_untile:
  assumes nonempty: "image_list = first # rest"
    and same: "list_all (has_shape (shape3 first)) image_list"
  shows "\<exists>pages. tile_in_pages image_list = Inr pages
           \<and> length pages = length image_list div 9 + 1
           \<and> untile (shape3 first) pages
             = pad_cells (shape3 first) (stack_canvas (shape3 first) image_list)"
proof -
  obtain h w c where shape: "shape3 first = (h, w, c)" by (cases "shape3 first") auto
  obtain ch cw cc where cell: "padded_shape (h, w, c) = (ch, cw, cc)"
    by (cases "padded_shape (h, w, c)") auto
  define canvas where "canvas = pad_cells (h, w, c) (stack_canvas (h, w, c) image_list)"
  let ?pages = "map (np_pad (3 * cw, cc) (margin_h ch, margin_h ch) (margin_w cw, margin_w cw) WHITE)
               (map (grid_page 3 3 ch canvas) [0..<length image_list div 9 + 1])"
  have tile: "tile_in_pages image_list = Inr ?pages"
    using nonempty same shape cell canvas_def by (rule tile_in_pages_eq)
  have len: "length canvas = (length image_list div 9 + 1) * 9"
    unfolding canvas_def by (simp add: pad_cells_def stack_canvas_def nb_missing_total)
  have "list_all (has_shape (h, w, c)) (stack_canvas (h, w, c) image_list)"
    using same shape has_shape_np_full [of "(h, w, c)" WHITE]
    by (auto simp: list_all_iff stack_canvas_def)
  then have "cells_ok (nat (cell_padding H_INCHES h) + h) (nat (cell_padding W_INCHES w) + w) canvas"
    unfolding canvas_def by (rule cells_ok_pad_cells)
  then have ok: "cells_ok ch cw canvas"
    using cell by (simp add: padded_shape_def)
  have "untile (shape3 first) ?pages = canvas"
    using untile_pages [OF ok len] by (simp add: untile_def shape cell)
  then show ?thesis
    using tile by (simp add: shape canvas_def)
qed


lemma unpad_cell_np_pad:
  "unpad_cell (h, w, c)
     (np_pad (w, c) (nat (cell_padding H_INCHES h), 0) (nat (cell_padding W_INCHES w), 0) v img) = img"
  by (simp add: unpad_cell_def np_pad.simps comp_def)

lemma nine_images: "replicate 9 [[[0::int]]] = [[[0]]] # replicate 8 [[[0]]]"
  by (simp add: numeral_eq_Suc)

lemma nine_images_same: "list_all (has_shape (shape3 [[[0]]])) (replicate 9 [[[0]]])"
  by (simp add: has_shape_def shape3_def list_all_iff)

lemma round_half_even_nonneg: "0 \<le> q \<Longrightarrow> 0 \<le> round_half_even q"
  by (auto simp: round_half_even_def Let_def)

lemma fl_nonneg: "0 \<le> q \<Longrightarrow> 0 \<le> fl q"
proof -
  assume q: "0 \<le> q"
  have u: "0 < (2::rat) powi k" for k by simp
  show ?thesis
  proof (cases "q = 0")
    case True
    then show ?thesis by (simp add: fl_def)
  next
    case False
    with q have "0 < q" by simp
    then have "0 \<le> \<bar>q\<bar> / 2 powi (binade \<bar>q\<bar> - 52)"
      using u by simp
    then have "0 \<le> round_half_even (\<bar>q\<bar> / 2 powi (binade \<bar>q\<bar> - 52))"
      by (rule round_half_even_nonneg)
    with \<open>0 < q\<close> show ?thesis
      by (simp add: fl_def Let_def)
  qed
qed

lemma PAD_INCHES_nonneg: "0 \<le> PAD_INCHES"
  unfolding PAD_INCHES_def by (rule fl_nonneg) simp

lemma H_INCHES_nonneg: "0 \<le> H_INCHES"
  unfolding H_INCHES_def by (rule fl_nonneg) simp

lemma W_INCHES_nonneg: "0 \<le> W_INCHES"
  unfolding W_INCHES_def by (rule fl_nonneg) simp

lemma float_of_nat_nonneg: "0 \<le> float_of_nat n"
  unfolding float_of_nat_def by (rule fl_nonneg) simp

lemma cell_padding_nonneg:
  assumes "0 \<le> inches"
  shows "0 \<le> cell_padding inches px"
proof -
  have "0 \<le> fdiv PAD_INCHES inches"
    unfolding fdiv_def using PAD_INCHES_nonneg assms by (intro fl_nonneg) simp
  then have "0 \<le> fmul (fdiv PAD_INCHES inches) (float_of_nat px)"
    unfolding fmul_def using float_of_nat_nonneg [of px] by (intro fl_nonneg) simp
  then show ?thesis
    unfolding cell_padding_def py_round_def by (rule round_half_even_nonneg)
qed

lemma H_INCHES_value: "H_INCHES = 7836263351624663 / 2251799813685248"
  by code_simp

lemma W_INCHES_value: "W_INCHES = 1401745384019067 / 562949953421312"
  by code_simp

lemma PAD_INCHES_value: "PAD_INCHES = 5764607523034235 / 1152921504606846976"
  by code_simp

lemma pad_ratio_h: "fdiv PAD_INCHES H_INCHES = 828248207332505 / 576460752303423488"
  unfolding PAD_INCHES_value H_INCHES_value by code_simp

lemma pad_ratio_w: "fdiv PAD_INCHES W_INCHES = 2315103422905315 / 1152921504606846976"
  unfolding PAD_INCHES_value W_INCHES_value by code_simp

lemma float_of_3: "float_of_nat 3 = 3"
  by code_simp

lemma three_heights: "fmul H_INCHES 3 = 5877197513718497 / 562949953421312"
  unfolding H_INCHES_value by code_simp

lemma three_widths: "fmul W_INCHES 3 = 4205236152057201 / 562949953421312"
  unfolding W_INCHES_value by code_simp

lemma spare_height: "fsub 11 (5877197513718497 / 562949953421312) = 315251973915935 / 562949953421312"
  by code_simp

lemma spare_width: "fsub (17 / 2) (4205236152057201 / 562949953421312) = 579838452023951 / 562949953421312"
  by code_simp

lemma margin_factor_h:
  "fdiv (fsub 11 (fmul H_INCHES (float_of_nat ROWS_PER_PAGE))) H_INCHES
     = 1449434362831885 / 9007199254740992"
  unfolding ROWS_PER_PAGE_def float_of_3 three_heights spare_height
  unfolding H_INCHES_value by code_simp

lemma margin_factor_w:
  "fdiv (fsub (17 / 2) (fmul W_INCHES (float_of_nat COLS_PER_PAGE))) W_INCHES
     = 3725869571238239 / 9007199254740992"
  unfolding COLS_PER_PAGE_def float_of_3 three_widths spare_width
  unfolding W_INCHES_value by code_simp

lemma margin_factor_h_nonneg:
  "0 \<le> fdiv (fsub 11 (fmul H_INCHES (float_of_nat ROWS_PER_PAGE))) H_INCHES"
  unfolding margin_factor_h by simp

lemma margin_factor_w_nonneg:
  "0 \<le> fdiv (fsub (17 / 2) (fmul W_INCHES (float_of_nat COLS_PER_PAGE))) W_INCHES"
  unfolding margin_factor_w by simp

lemma half_round_nonneg:
  assumes "0 \<le> k"
  shows "0 \<le> py_round (fdiv (fmul k (float_of_nat px)) 2)"
proof -
  have "0 \<le> fmul k (float_of_nat px)"
    unfolding fmul_def using assms float_of_nat_nonneg [of px] by (intro fl_nonneg) simp
  then have "0 \<le> fdiv (fmul k (float_of_nat px)) 2"
    unfolding fdiv_def by (intro fl_nonneg) simp
  then show ?thesis
    unfolding py_round_def by (rule round_half_even_nonneg)
qed

lemma margin_h_int: "int (margin_h px) = py_round (fdiv (MISSING_HEIGHT px) 2)"
  unfolding margin_h_def MISSING_HEIGHT_def
  using half_round_nonneg [OF margin_factor_h_nonneg] by simp

lemma margin_w_int: "int (margin_w px) = py_round (fdiv (MISSING_WIDTH px) 2)"
  unfolding margin_w_def MISSING_WIDTH_def
  using half_round_nonneg [OF margin_factor_w_nonneg] by simp

lemma grid_page_row_length:
  assumes ok: "cells_ok ch cw canvas"
    and inside: "p * 9 + 9 \<le> length canvas"
    and row: "row \<in> set (grid_page 3 3 ch canvas p)"
  shows "length row = 3 * cw"
proof -
  from row obtain r y where r: "r < 3" and y: "y < ch"
    and eq: "row = concat (map (\<lambda>c. canvas ! (p * (3 * 3) + r * 3 + c) ! y) [0..<3])"
    by (auto simp: grid_page_def)
  have each: "length (canvas ! (p * (3 * 3) + r * 3 + c) ! y) = cw" if c: "c < 3" for c
  proof -
    have i: "p * (3 * 3) + r * 3 + c < length canvas" using inside r c by linarith
    then have cell: "canvas ! (p * (3 * 3) + r * 3 + c) \<in> set canvas" by (rule nth_mem)
    with ok have len: "length (canvas ! (p * (3 * 3) + r * 3 + c)) = ch"
      and rows: "\<forall>row\<in>set (canvas ! (p * (3 * 3) + r * 3 + c)). length row = cw"
      unfolding cells_ok_def list_all_iff by blast+
    from len y have "canvas ! (p * (3 * 3) + r * 3 + c) ! y \<in> set (canvas ! (p * (3 * 3) + r * 3 + c))"
      by simp
    with rows show ?thesis by blast
  qed
  have "\<forall>xs\<in>set (map (\<lambda>c. canvas ! (p * (3 * 3) + r * 3 + c) ! y) [0..<3]). length xs = cw"
    using each by auto
  from length_concat_blocks [OF this] show ?thesis
    unfolding eq by simp
qed

lemma length_np_pad:
  "length (np_pad (w, c) (hb, ha) (wb, wa) v img) = hb + length img + ha"
  by (simp add: np_pad.simps)

section \<open>Claims about the page layout engine\<close>



text \<open>
  C8. Tiling is lossless: cutting every page into its 9 cells by the grid geometry gives
  back the padded cells, inputs first and in their order, then the white fillers; and
  removing the padding from the first \<open>N\<close> cells gives back the input images.
\<close>

theorem C8_round_trip:
  assumes "image_list = first # rest"
    and "list_all (has_shape (shape3 first)) image_list"
  shows "\<exists>pages. tile_in_pages image_list = Inr pages
           \<and> untile (shape3 first) pages
             = pad_cells (shape3 first) (stack_canvas (shape3 first) image_list)
           \<and> take (length image_list) (untile (shape3 first) pages)
             = pad_cells (shape3 first) image_list
           \<and> map (unpad_cell (shape3 first)) (take (length image_list) (untile (shape3 first) pages))
             = image_list"
proof -
  from tile_in_pages_untile [OF assms] obtain pages where
    tile: "tile_in_pages image_list = Inr pages"
    and cells: "untile (shape3 first) pages
              = pad_cells (shape3 first) (stack_canvas (shape3 first) image_list)"
    by blast
  obtain h w c where shape: "shape3 first = (h, w, c)" by (cases "shape3 first") auto
  have inputs: "take (length image_list) (untile (shape3 first) pages)
              = pad_cells (shape3 first) image_list"
    using cells shape by (simp add: pad_cells_def stack_canvas_def)
  have "map (unpad_cell (shape3 first)) (pad_cells (shape3 first) image_list) = image_list"
    unfolding shape by (simp add: pad_cells_def comp_def unpad_cell_np_pad)
  with tile cells inputs show ?thesis by simp
qed

theorem C8_round_trip_witness:
  "\<exists>pages. tile_in_pages (replicate 9 [[[0]]]) = Inr pages
     \<and> map (unpad_cell (shape3 [[[0]]])) (take 9 (untile (shape3 [[[0]]]) pages))
       = replicate 9 [[[0]]]"
  using C8_round_trip [OF nine_images nine_images_same] by auto

text \<open>
  C10. \<^verbatim>\<open>tile_in_pages\<close> succeeds on every non-empty sequence of images of one shape;
  on the empty sequence \<^verbatim>\<open>image_list[0]\<close> raises IndexError, and that error arises for
  no non-empty input.
\<close>

theorem C10_total_on_nonempty:
  "tile_in_pages [] = Inl IndexError
   \<and> (image_list = first # rest \<and> list_all (has_shape (shape3 first)) image_list
        \<longrightarrow> (\<exists>pages. tile_in_pages image_list = Inr pages))
   \<and> (image_list \<noteq> [] \<longrightarrow> tile_in_pages image_list \<noteq> Inl IndexError)"
proof (intro conjI impI)
  show "tile_in_pages [] = Inl IndexError"
    by (simp add: tile_in_pages_def)
next
  assume "image_list = first # rest \<and> list_all (has_shape (shape3 first)) image_list"
  then show "\<exists>pages. tile_in_pages image_list = Inr pages"
    using tile_in_pages_untile by blast
next
  assume "image_list \<noteq> []"
  then show "tile_in_pages image_list \<noteq> Inl IndexError"
    by (auto simp: tile_in_pages_def rearrange_def Let_def split: list.splits sum.splits if_splits)
qed

theorem C10_total_on_nonempty_witness:
  "tile_in_pages [] = Inl IndexError
   \<and> (\<exists>pages. tile_in_pages (replicate 9 [[[0]]]) = Inr pages)
   \<and> tile_in_pages (replicate 9 [[[0]]]) \<noteq> Inl IndexError"
proof -
  have "replicate 9 [[[0::int]]] \<noteq> []" by simp
  then show ?thesis
    using C10_total_on_nonempty [of "replicate 9 [[[0]]]" "[[[0]]]" "replicate 8 [[[0]]]"]
      nine_images nine_images_same
    by blast
qed

text \<open>
  C2 (as amended). Every cell, input or filler, gets \<open>round(0.005 / 3.48 * h)\<close> white
  rows before it and \<open>round(0.005 / 2.49 * w)\<close> white pixels before each of its rows,
  and nothing after: the \<^verbatim>\<open>padding\<close> table of the first \<^verbatim>\<open>np.pad\<close> has a before
  and an after column, and only the before column is set.
\<close>

theorem C2_padding_before_each_cell:
  assumes "image_list = first # rest"
    and "list_all (has_shape (shape3 first)) image_list"
    and "shape3 first = (h, w, c)"
  shows "\<exists>pages ph pw.
           tile_in_pages image_list = Inr pages
           \<and> int ph = py_round (fmul (fdiv PAD_INCHES H_INCHES) (float_of_nat h))
           \<and> int pw = py_round (fmul (fdiv PAD_INCHES W_INCHES) (float_of_nat w))
           \<and> untile (h, w, c) pages
             = map (\<lambda>cell. replicate ph (replicate (pw + w) (replicate c WHITE))
                           @ map (\<lambda>row. replicate pw (replicate c WHITE) @ row) cell)
                   (stack_canvas (h, w, c) image_list)"
proof -
  from tile_in_pages_untile [OF assms(1,2)] obtain pages where
    tile: "tile_in_pages image_list = Inr pages"
    and cells: "untile (shape3 first) pages
              = pad_cells (shape3 first) (stack_canvas (shape3 first) image_list)"
    by blast
  let ?ph = "nat (cell_padding H_INCHES h)" and ?pw = "nat (cell_padding W_INCHES w)"
  have ph: "int ?ph = py_round (fmul (fdiv PAD_INCHES H_INCHES) (float_of_nat h))"
    using cell_padding_nonneg [OF H_INCHES_nonneg, of h] by (simp add: cell_padding_def)
  have pw: "int ?pw = py_round (fmul (fdiv PAD_INCHES W_INCHES) (float_of_nat w))"
    using cell_padding_nonneg [OF W_INCHES_nonneg, of w] by (simp add: cell_padding_def)
  have "untile (h, w, c) pages
      = map (\<lambda>cell. replicate ?ph (replicate (?pw + w) (replicate c WHITE))
                    @ map (\<lambda>row. replicate ?pw (replicate c WHITE) @ row) cell)
            (stack_canvas (h, w, c) image_list)"
    using cells unfolding assms(3) by (simp add: pad_cells_def np_pad.simps)
  with tile ph pw show ?thesis by blast
qed

lemma wide_image_shape: "shape3 [[0] # replicate 249 [0]] = (1, 250, 1)"
  by (simp add: shape3_def)

lemma wide_image_same:
  "list_all (has_shape (shape3 [[0] # replicate 249 [0]])) [[[0] # replicate 249 [0]]]"
  by (simp add: wide_image_shape has_shape_def list_all_iff)

lemma wide_padding: "cell_padding H_INCHES 1 = 0" "cell_padding W_INCHES 250 = 1"
  unfolding cell_padding_def pad_ratio_h pad_ratio_w by code_simp+

lemma wide_padding_Suc: "cell_padding H_INCHES (Suc 0) = 0"
  using wide_padding(1) by simp

theorem C2_padding_before_each_cell_witness:
  "\<exists>pages. tile_in_pages [[[0] # replicate 249 [0]]] = Inr pages
     \<and> hd (untile (1, 250, 1) pages) = [[WHITE] # [0] # replicate 249 [0]]"
proof -
  from C2_padding_before_each_cell [OF refl wide_image_same wide_image_shape]
  obtain pages ph pw where
    tile: "tile_in_pages [[[0] # replicate 249 [0]]] = Inr pages"
    and "int ph = py_round (fmul (fdiv PAD_INCHES H_INCHES) (float_of_nat 1))"
    and "int pw = py_round (fmul (fdiv PAD_INCHES W_INCHES) (float_of_nat 250))"
    and cells: "untile (1, 250, 1) pages
             = map (\<lambda>cell. replicate ph (replicate (pw + 250) (replicate 1 WHITE))
                           @ map (\<lambda>row. replicate pw (replicate 1 WHITE) @ row) cell)
                   (stack_canvas (1, 250, 1) [[[0] # replicate 249 [0]]])"
    by blast
  then have "int ph = 0" and "int pw = 1"
    using wide_padding by (simp_all add: cell_padding_def)
  then have "ph = 0" and "pw = 1" by simp_all
  then have "hd (untile (1, 250, 1) pages) = [[WHITE] # [0] # replicate 249 [0]]"
    unfolding cells by (simp add: stack_canvas_def)
  with tile show ?thesis by blast
qed

theorem C2_symmetric_padding_counterexample:
  "cell_padding W_INCHES 250 = 1
   \<and> hd (untile (1, 250, 1) (projr (tile_in_pages [[[0] # replicate 249 [0]]])))
     = [[WHITE] # [0] # replicate 249 [0]]
   \<and> hd (untile (1, 250, 1) (projr (tile_in_pages [[[0] # replicate 249 [0]]])))
     \<noteq> np_pad (250, 1) (0, 0) (1, 1) WHITE [[0] # replicate 249 [0]]"
proof -
  from tile_in_pages_untile [OF refl wide_image_same] obtain pages where
    tile: "tile_in_pages [[[0] # replicate 249 [0]]] = Inr pages"
    and cells: "untile (1, 250, 1) pages
              = pad_cells (1, 250, 1) (stack_canvas (1, 250, 1) [[[0] # replicate 249 [0]]])"
    unfolding wide_image_shape by blast
  have cell: "hd (untile (1, 250, 1) pages) = [[WHITE] # [0] # replicate 249 [0]]"
    unfolding cells by (simp add: pad_cells_def stack_canvas_def np_pad.simps wide_padding wide_padding_Suc)
  have "length (hd ([[WHITE] # [0] # replicate 249 [0]] :: image))
      \<noteq> length (hd (np_pad (250, 1) (0, 0) (1, 1) WHITE [[0] # replicate 249 [0]]))"
    by (simp add: np_pad.simps)
  then have "([[WHITE] # [0] # replicate 249 [0]] :: image)
      \<noteq> np_pad (250, 1) (0, 0) (1, 1) WHITE [[0] # replicate 249 [0]]"
    by metis
  with cell tile wide_padding(2) show ?thesis by simp
qed

text \<open>
  C3 (as amended). The outer margins are computed from the pixel height and width of one
  padded cell, \<^verbatim>\<open>canvas_shape[1]\<close> and \<^verbatim>\<open>canvas_shape[2]\<close> as read before
  \<^verbatim>\<open>rearrange\<close>, not from those of the assembled 3 x 3 grid: every page is its grid
  of \<open>3 * ch\<close> rows of \<open>3 * cw\<close> pixels with \<open>round(MISSING_HEIGHT / 2)\<close> white
  rows above and below and \<open>round(MISSING_WIDTH / 2)\<close> white pixels left and right.
\<close>

theorem C3_margins_from_padded_cell:
  assumes "image_list = first # rest"
    and "list_all (has_shape (shape3 first)) image_list"
    and "shape3 first = (h, w, c)"
    and "ch = nat (cell_padding H_INCHES h) + h"
    and "cw = nat (cell_padding W_INCHES w) + w"
  shows "\<exists>grids mh mw.
           tile_in_pages image_list
             = Inr (map (\<lambda>grid. replicate mh (replicate (mw + 3 * cw + mw) (replicate c WHITE))
                               @ map (\<lambda>row. replicate mw (replicate c WHITE) @ row
                                              @ replicate mw (replicate c WHITE)) grid
                               @ replicate mh (replicate (mw + 3 * cw + mw) (replicate c WHITE)))
                        grids)
           \<and> list_all (\<lambda>grid. length grid = 3 * ch \<and> list_all (\<lambda>row. length row = 3 * cw) grid) grids
           \<and> int mh = py_round (fdiv (fmul (fdiv (fsub 11 (fmul H_INCHES (float_of_nat 3))) H_INCHES)
                                         (float_of_nat ch)) 2)
           \<and> int mw = py_round (fdiv (fmul (fdiv (fsub (17 / 2) (fmul W_INCHES (float_of_nat 3))) W_INCHES)
                                         (float_of_nat cw)) 2)"
proof -
  define canvas where "canvas = pad_cells (h, w, c) (stack_canvas (h, w, c) image_list)"
  define grids where "grids = map (grid_page 3 3 ch canvas) [0..<length image_list div 9 + 1]"
  have cell: "padded_shape (h, w, c) = (ch, cw, c)"
    by (simp add: padded_shape_def assms(4,5))
  have tile: "tile_in_pages image_list
       = Inr (map (np_pad (3 * cw, c) (margin_h ch, margin_h ch) (margin_w cw, margin_w cw) WHITE) grids)"
    unfolding grids_def using assms(1,2,3) cell canvas_def by (rule tile_in_pages_eq)
  have len: "length canvas = (length image_list div 9 + 1) * 9"
    unfolding canvas_def by (simp add: pad_cells_def stack_canvas_def nb_missing_total)
  have "list_all (has_shape (h, w, c)) (stack_canvas (h, w, c) image_list)"
    using assms(2,3) has_shape_np_full [of "(h, w, c)" WHITE]
    by (auto simp: list_all_iff stack_canvas_def)
  then have ok: "cells_ok ch cw canvas"
    unfolding canvas_def assms(4,5) by (rule cells_ok_pad_cells)
  have shape: "length grid = 3 * ch \<and> list_all (\<lambda>row. length row = 3 * cw) grid"
    if "grid \<in> set grids" for grid
  proof -
    from that obtain p where "p \<in> set [0..<length image_list div 9 + 1]"
      and grid: "grid = grid_page 3 3 ch canvas p"
      unfolding grids_def set_map by blast
    then have p: "p < length image_list div 9 + 1" by auto
    from p have "Suc p * 9 \<le> (length image_list div 9 + 1) * 9"
      by (intro mult_le_mono1) simp
    then have inside: "p * 9 + 9 \<le> length canvas" unfolding len by simp
    show ?thesis
      unfolding grid list_all_iff
      using grid_page_row_length [OF ok inside] length_grid_page by blast
  qed
  then have shapes: "list_all (\<lambda>grid. length grid = 3 * ch \<and> list_all (\<lambda>row. length row = 3 * cw) grid) grids"
    unfolding list_all_iff [of _ grids] by blast
  have mh: "int (margin_h ch)
      = py_round (fdiv (fmul (fdiv (fsub 11 (fmul H_INCHES (float_of_nat 3))) H_INCHES) (float_of_nat ch)) 2)"
    unfolding margin_h_int by (simp add: MISSING_HEIGHT_def ROWS_PER_PAGE_def)
  have mw: "int (margin_w cw)
      = py_round (fdiv (fmul (fdiv (fsub (17 / 2) (fmul W_INCHES (float_of_nat 3))) W_INCHES) (float_of_nat cw)) 2)"
    unfolding margin_w_int by (simp add: MISSING_WIDTH_def COLS_PER_PAGE_def)
  have "tile_in_pages image_list
      = Inr (map (\<lambda>grid. replicate (margin_h ch) (replicate (margin_w cw + 3 * cw + margin_w cw) (replicate c WHITE))
                        @ map (\<lambda>row. replicate (margin_w cw) (replicate c WHITE) @ row
                                       @ replicate (margin_w cw) (replicate c WHITE)) grid
                        @ replicate (margin_h ch) (replicate (margin_w cw + 3 * cw + margin_w cw) (replicate c WHITE)))
                 grids)"
    unfolding tile by (simp add: np_pad.simps)
  with shapes mh mw show ?thesis by blast
qed

lemma tall_image_shape: "shape3 ([[0]] # replicate 9 [[0]]) = (10, 1, 1)"
  by (simp add: shape3_def)

lemma tall_image_same:
  "list_all (has_shape (shape3 ([[0]] # replicate 9 [[0]]))) [[[0]] # replicate 9 [[0]]]"
  by (simp add: tall_image_shape has_shape_def list_all_iff)

lemma tall_padding: "cell_padding H_INCHES 10 = 0" "cell_padding W_INCHES 1 = 0"
  unfolding cell_padding_def pad_ratio_h pad_ratio_w by code_simp+

lemma tall_padding_Suc: "cell_padding W_INCHES (Suc 0) = 0"
  using tall_padding(2) by simp

lemma tall_margins: "margin_h 10 = 1" "margin_h (3 * 10) = 2" "margin_w 1 = 0"
  unfolding margin_h_def margin_w_def MISSING_HEIGHT_def MISSING_WIDTH_def
    margin_factor_h margin_factor_w
  by code_simp+

theorem C3_margins_from_padded_cell_witness:
  "\<exists>grids. tile_in_pages [[[0]] # replicate 9 [[0]]]
     = Inr (map (\<lambda>grid. [replicate 3 [WHITE]] @ grid @ [replicate 3 [WHITE]]) grids)
     \<and> list_all (\<lambda>grid. length grid = 30 \<and> list_all (\<lambda>row. length row = 3) grid) grids"
proof -
  have ch: "(10::nat) = nat (cell_padding H_INCHES 10) + 10"
    and cw: "(1::nat) = nat (cell_padding W_INCHES 1) + 1"
    by (simp_all add: tall_padding tall_padding_Suc)
  from C3_margins_from_padded_cell [OF refl tall_image_same tall_image_shape ch cw]
  obtain grids mh mw where
    tile: "tile_in_pages [[[0]] # replicate 9 [[0]]]
             = Inr (map (\<lambda>grid. replicate mh (replicate (mw + 3 * 1 + mw) (replicate 1 WHITE))
                               @ map (\<lambda>row. replicate mw (replicate 1 WHITE) @ row
                                              @ replicate mw (replicate 1 WHITE)) grid
                               @ replicate mh (replicate (mw + 3 * 1 + mw) (replicate 1 WHITE)))
                        grids)"
    and shapes: "list_all (\<lambda>grid. length grid = 3 * 10 \<and> list_all (\<lambda>row. length row = 3 * 1) grid) grids"
    and "int mh = py_round (fdiv (fmul (fdiv (fsub 11 (fmul H_INCHES (float_of_nat 3))) H_INCHES)
                                         (float_of_nat 10)) 2)"
    and "int mw = py_round (fdiv (fmul (fdiv (fsub (17 / 2) (fmul W_INCHES (float_of_nat 3))) W_INCHES)
                                         (float_of_nat 1)) 2)"
    by blast
  then have "int mh = int (margin_h 10)" and "int mw = int (margin_w 1)"
    unfolding margin_h_int margin_w_int
    by (simp_all add: MISSING_HEIGHT_def MISSING_WIDTH_def ROWS_PER_PAGE_def COLS_PER_PAGE_def)
  then have "mh = 1" and "mw = 0"
    using tall_margins by simp_all
  with tile shapes show ?thesis
    by (intro exI [of _ grids]) simp
qed

theorem C3_grid_height_counterexample:
  "map length (projr (tile_in_pages [[[0]] # replicate 9 [[0]]])) = [3 * 10 + 2 * margin_h 10]
   \<and> margin_h 10 = 1
   \<and> margin_h (3 * 10) = 2"
proof -
  have cell: "padded_shape (10, 1, 1) = (10, 1, 1)"
    by (simp add: padded_shape_def tall_padding tall_padding_Suc)
  have "tile_in_pages [[[0]] # replicate 9 [[0]]]
      = Inr (map (np_pad (3 * 1, 1) (margin_h 10, margin_h 10) (margin_w 1, margin_w 1) WHITE)
               (map (grid_page 3 3 10 (pad_cells (10, 1, 1) (stack_canvas (10, 1, 1) [[[0]] # replicate 9 [[0]]])))
                    [0..<length [[[0::int]] # replicate 9 [[0]]] div 9 + 1]))"
    using refl tall_image_same tall_image_shape cell refl by (rule tile_in_pages_eq)
  then have "map length (projr (tile_in_pages [[[0]] # replicate 9 [[0]]])) = [3 * 10 + 2 * margin_h 10]"
    by (simp add: length_np_pad length_grid_page)
  then show ?thesis using tall_margins by simp
qed

section \<open>Claims about the resolvers\<close>

lemma io_catch_reraise: "io_catch m (\<lambda>e. io_lift (Inl e)) = m"
  by (rule ext) (simp add: io_catch_def io_lift_def split: prod.splits sum.splits)

lemma strip_plain: "strip ''Nonexistent Card'' = ''Nonexistent Card''"
  by (simp add: strip_def isspace_def)

text \<open>
  C9. A failed card lookup propagates to the caller of \<^verbatim>\<open>process_card\<close>, and the
  claim has the error carry the offending input, as the comment on line 61 announces. The
  handler is a bare \<^verbatim>\<open>raise\<close>: for a deck entry whose name the catalog does not know,
  the error that leaves \<^verbatim>\<open>process_card\<close> is the catalog's own, unchanged, and the
  name of the entry is not attached to it.
\<close>

theorem C9_error_reraised_unchanged:
  "process_card unknown_card_world \<lparr>name = ''Nonexistent Card'', count = 1\<rparr> True initial_state
     = (Inl (ScryfallError ''No cards found matching the name.''),
        \<lparr>images = [], tokens = {}, calls = [CallNamed ''Nonexistent Card'']\<rparr>)"
  by (simp add: process_card_def lookup_card_def io_catch_reraise strip_plain startswith_def
      io_bind_def io_return_def scrython_cards_Named_def unknown_card_world_def
      initial_state_def log_call_def)











end
